theory Spec2Isabelle
  imports Complex_Main "HOL-Library.Word" "HOL-Library.Sublist"
begin

section \<open>Data model of \<^verbatim>\<open>libs/qCC_io/FileIOFilter.cpp\<close>\<close>

text \<open>
  The functions of \<^verbatim>\<open>FileIOFilter.cpp\<close> are modelled as functions on explicit state:
  the file-level statics, the reference arguments, and the objects behind the pointers.
  Three conventions hold throughout.
  \<^item> The calls of \<^verbatim>\<open>ccLog\<close> and of \<^verbatim>\<open>DisplayErrorMessage\<close> only write to the log;
    they are left out.
  \<^item> \<^verbatim>\<open>assert(false)\<close> stands in front of two early returns (null filter in
    \<^verbatim>\<open>Register\<close> and in \<^verbatim>\<open>LoadFromFile\<close>); the model is the build in which assertions
    are compiled out, where the early return is taken.
  \<^item> The virtual methods of a filter and \<^verbatim>\<open>ccGlobalShiftManager::Handle\<close> are defined
    elsewhere; they are parameters of the model, and act on the arguments passed to them
    only (not on the statics).
\<close>

text \<open>
  The error taxonomy \<^verbatim>\<open>CC_FILE_ERROR\<close>: the enumerators that
  \<^verbatim>\<open>FileIOFilter::DisplayErrorMessage\<close> switches over.
\<close>

datatype CC_FILE_ERROR =
    CC_FERR_NO_ERROR
  | CC_FERR_BAD_ARGUMENT
  | CC_FERR_UNKNOWN_FILE
  | CC_FERR_WRONG_FILE_TYPE
  | CC_FERR_WRITING
  | CC_FERR_READING
  | CC_FERR_NO_SAVE
  | CC_FERR_NO_LOAD
  | CC_FERR_BAD_ENTITY_TYPE
  | CC_FERR_CANCELED_BY_USER
  | CC_FERR_NOT_ENOUGH_MEMORY
  | CC_FERR_MALFORMED_FILE
  | CC_FERR_BROKEN_DEPENDENCY_ERROR
  | CC_FERR_FILE_WAS_WRITTEN_BY_UNKNOWN_PLUGIN
  | CC_FERR_THIRD_PARTY_LIB_FAILURE
  | CC_FERR_THIRD_PARTY_LIB_EXCEPTION
  | CC_FERR_NOT_IMPLEMENTED
  | CC_FERR_CONSOLE_ERROR

text \<open>
  \<^verbatim>\<open>ccHObject\<close>, the entity container: a name and an ordered list of children.
  Only \<^verbatim>\<open>getName\<close>, \<^verbatim>\<open>setName\<close>, \<^verbatim>\<open>getChildrenNumber\<close>,
  \<^verbatim>\<open>getChild\<close> and \<^verbatim>\<open>removeAllChildren\<close> are used by the code under study.
  The children of one container are taken to be distinct objects.
\<close>

datatype ccHObject = ccHObject (getName: string) (getChildren: "ccHObject list")

definition setName :: "string \<Rightarrow> ccHObject \<Rightarrow> ccHObject" where
  "setName n obj = ccHObject n (getChildren obj)"

definition getChildrenNumber :: "ccHObject \<Rightarrow> nat" where
  "getChildrenNumber obj = length (getChildren obj)"

definition removeAllChildren :: "ccHObject \<Rightarrow> ccHObject" where
  "removeAllChildren obj = ccHObject (getName obj) []"

text \<open>
  \<^verbatim>\<open>new ccHObject()\<close>: a container without children. Its initial name is never
  observed by the caller of \<^verbatim>\<open>LoadFromFile\<close> (a returned container has been renamed).
\<close>

definition new_ccHObject :: ccHObject where
  "new_ccHObject = ccHObject [] []"

text \<open>
  \<^verbatim>\<open>CCVector3d\<close>: three double-precision coordinates. The code under study only copies
  and stores such vectors, it never computes with them, so the coordinates are kept as
  reals.
\<close>

type_synonym CCVector3d = "real \<times> real \<times> real"

text \<open>
  \<^verbatim>\<open>ccGlobalShiftManager::Mode\<close> is declared outside this file; it is only passed on to
  the decision procedure, so it is kept as the integer value of the enumerator.
\<close>

type_synonym Mode = nat

text \<open>
  \<^verbatim>\<open>FileIOFilter::LoadParameters\<close>, with the fields that \<^verbatim>\<open>FileIOFilter.cpp\<close> reads
  or writes. The two pointer members \<^verbatim>\<open>bool* coordinatesShiftEnabled\<close> and
  \<^verbatim>\<open>CCVector3d* coordinatesShift\<close> are options: \<open>None\<close> is the null pointer,
  \<open>Some v\<close> a pointer to a cell (owned by the caller) that currently holds \<open>v\<close>.
  The cells are taken to be distinct from the output arguments of
  \<^verbatim>\<open>HandleGlobalShift\<close>.
\<close>

record LoadParameters =
  shiftHandlingMode :: Mode
  coordinatesShiftEnabled :: "bool option"
  coordinatesShift :: "CCVector3d option"
  preserveShiftOnSave :: bool
  sessionStart :: bool

text \<open>\<^verbatim>\<open>FileIOFilter::SaveParameters\<close> is opaque to this file: it is only handed to the filter.\<close>

datatype SaveParameters = SaveParameters nat

text \<open>
  What a filter's virtual \<^verbatim>\<open>loadFile\<close> and \<^verbatim>\<open>saveToFile\<close> can do, as seen from
  their call sites: return an error code or throw. \<^verbatim>\<open>loadFile\<close> receives the container
  and the load parameters by reference, so both outcomes carry the state in which it
  leaves them. The two \<^verbatim>\<open>catch\<close> clauses of \<^verbatim>\<open>LoadFromFile\<close> tell a
  \<^verbatim>\<open>std::exception\<close> (with its \<^verbatim>\<open>what()\<close> text) from anything else.
\<close>

datatype exception = std_exception string | other_exception

datatype load_outcome =
    Returned CC_FILE_ERROR ccHObject LoadParameters
  | Threw exception ccHObject LoadParameters

datatype save_outcome = SaveReturned CC_FILE_ERROR | SaveThrew exception

text \<open>
  A filter object behind a \<^verbatim>\<open>FileIOFilter::Shared\<close> pointer. \<open>ptr\<close> is the address
  of the object: \<^verbatim>\<open>*it == filter\<close> compares shared pointers, that is addresses. The other
  fields are the virtual methods the code calls. A \<^verbatim>\<open>Shared\<close> value is a
  \<open>FileIOFilter option\<close>, \<open>None\<close> being the null pointer.
\<close>

record FileIOFilter =
  ptr :: nat
  getFileFilters :: "bool \<Rightarrow> string list"
  getDefaultExtension :: string
  canLoadExtension :: "string \<Rightarrow> bool"
  loadFile :: "string \<Rightarrow> ccHObject \<Rightarrow> LoadParameters \<Rightarrow> load_outcome"
  saveToFile :: "ccHObject \<Rightarrow> string \<Rightarrow> SaveParameters \<Rightarrow> save_outcome"

text \<open>
  The two file-level statics: \<^verbatim>\<open>s_ioFilters\<close> (a \<^verbatim>\<open>std::vector\<close>, insertion ordered)
  and \<^verbatim>\<open>s_sessionCounter\<close> (an \<^verbatim>\<open>unsigned\<close>, 32 bits wide, whose increment wraps).
\<close>

record statics =
  s_ioFilters :: "FileIOFilter list"
  s_sessionCounter :: "32 word"

section \<open>Qt strings and file names\<close>

text \<open>
  \<^verbatim>\<open>QString::toUpper\<close>, on the ASCII letters (a \<open>char\<close> is a byte here).
\<close>

definition toUpper_char :: "char \<Rightarrow> char" where
  "toUpper_char c =
     (case map_of (zip ''abcdefghijklmnopqrstuvwxyz'' ''ABCDEFGHIJKLMNOPQRSTUVWXYZ'') c of
        Some u \<Rightarrow> u
      | None \<Rightarrow> c)"

definition toUpper :: "string \<Rightarrow> string" where
  "toUpper s = map toUpper_char s"

definition startsWith :: "string \<Rightarrow> string \<Rightarrow> bool" where
  "startsWith s p = (take (length p) s = p)"

text \<open>
  \<^verbatim>\<open>QString::replace(before, after)\<close>: every occurrence of \<open>old\<close> is replaced by \<open>new\<close>,
  scanning from the left; the inserted text is not scanned again. Only called with the
  non-empty pattern \<^verbatim>\<open>"unnamed"\<close>; an empty pattern leaves the string as it is here.
\<close>

function replace :: "string \<Rightarrow> string \<Rightarrow> string \<Rightarrow> string" where
  "replace old new [] = []"
| "replace old new (c # cs) =
     (if old \<noteq> [] \<and> startsWith (c # cs) old
      then new @ replace old new (drop (length old) (c # cs))
      else c # replace old new cs)"
  by pat_completeness auto
termination
  by (relation "measure (\<lambda>(old, new, s). length s)") auto

text \<open>
  \<^verbatim>\<open>QFileInfo\<close>: the name decomposition is a function of the path (separator \<^verbatim>\<open>/\<close>);
  \<^verbatim>\<open>fileName\<close> is the part after the last separator, \<^verbatim>\<open>baseName\<close> the file name up
  to its first dot, \<^verbatim>\<open>suffix\<close> the file name after its last dot. \<^verbatim>\<open>exists\<close> and
  \<^verbatim>\<open>absolutePath\<close> depend on the disk and the working directory: they are read
  from a \<open>FileSystem\<close>.
\<close>

definition fileName :: "string \<Rightarrow> string" where
  "fileName path = rev (takeWhile (\<lambda>c. c \<noteq> CHR ''/'') (rev path))"

definition baseName :: "string \<Rightarrow> string" where
  "baseName path = takeWhile (\<lambda>c. c \<noteq> CHR ''.'') (fileName path)"

definition suffix_of :: "string \<Rightarrow> string" where
  "suffix_of path =
     (if CHR ''.'' \<in> set (fileName path)
      then rev (takeWhile (\<lambda>c. c \<noteq> CHR ''.'') (rev (fileName path)))
      else [])"

record FileSystem =
  file_exists :: "string \<Rightarrow> bool"
  absolutePath :: "string \<Rightarrow> string"

section \<open>The filter registry\<close>

text \<open>
  \<^verbatim>\<open>FileIOFilter::Register\<close>. The inner loop runs over the new filter's import
  file filters and stops at the first one that the registered filter \<open>it\<close> also has.
\<close>

fun alreadyHandled :: "string list \<Rightarrow> string list \<Rightarrow> bool" where
  "alreadyHandled otherFilters [] = False"
| "alreadyHandled otherFilters (ff # fileFilters) =
     (if ff \<in> set otherFilters then True else alreadyHandled otherFilters fileFilters)"

text \<open>The outer loop: \<open>True\<close> when some registered filter sets \<^verbatim>\<open>error\<close>.\<close>

fun Register_error :: "FileIOFilter \<Rightarrow> FileIOFilter list \<Rightarrow> bool" where
  "Register_error flt [] = False"
| "Register_error flt (it # rest) =
     (let error =
        (if ptr it = ptr flt then True
         else alreadyHandled (getFileFilters it True) (getFileFilters flt True))
      in if error then True else Register_error flt rest)"

definition Register :: "statics \<Rightarrow> FileIOFilter option \<Rightarrow> statics" where
  "Register st flt =
     (case flt of
        None \<Rightarrow> st
      | Some f \<Rightarrow>
          if Register_error f (s_ioFilters st) then st
          else st\<lparr>s_ioFilters := s_ioFilters st @ [f]\<rparr>)"

text \<open>\<^verbatim>\<open>FileIOFilter::FindBestFilterForExtension\<close>: the scan of \<^verbatim>\<open>s_ioFilters\<close>.\<close>

fun firstLoading :: "string \<Rightarrow> FileIOFilter list \<Rightarrow> FileIOFilter option" where
  "firstLoading upperExt [] = None"
| "firstLoading upperExt (it # rest) =
     (if canLoadExtension it upperExt then Some it else firstLoading upperExt rest)"

definition FindBestFilterForExtension :: "statics \<Rightarrow> string \<Rightarrow> FileIOFilter option" where
  "FindBestFilterForExtension st ext = firstLoading (toUpper ext) (s_ioFilters st)"

text \<open>
  The registry invariant: no filter object is registered twice, and no two registered
  filters have an import file filter in common.
\<close>

definition registry_inv :: "FileIOFilter list \<Rightarrow> bool" where
  "registry_inv fs =
     (distinct (map ptr fs) \<and>
      (\<forall>i < length fs. \<forall>j < length fs. i \<noteq> j \<longrightarrow>
         set (getFileFilters (fs ! i) True) \<inter> set (getFileFilters (fs ! j) True) = {}))"

section \<open>The session counter\<close>

definition ResetSesionCounter :: "statics \<Rightarrow> statics" where
  "ResetSesionCounter st = st\<lparr>s_sessionCounter := 0\<rparr>"

text \<open>\<^verbatim>\<open>return ++s_sessionCounter\<close>: the new value, and the updated statics.\<close>

definition IncreaseSesionCounter :: "statics \<Rightarrow> 32 word \<times> statics" where
  "IncreaseSesionCounter st =
     (let c = s_sessionCounter st + 1 in (c, st\<lparr>s_sessionCounter := c\<rparr>))"

section \<open>Loading and saving through a filter\<close>

text \<open>
  The outcome of \<^verbatim>\<open>LoadFromFile(filename, loadParameters, filter, result)\<close>: the returned
  pointer (\<open>None\<close> is \<^verbatim>\<open>nullptr\<close>), the \<^verbatim>\<open>result\<close> and \<^verbatim>\<open>loadParameters\<close>
  reference arguments as the call leaves them, and the statics. \<open>loadFile_calls\<close> is a
  record of the invocations of \<^verbatim>\<open>filter->loadFile\<close> made by the call, with their
  arguments; it is not program state.
\<close>

record load_result =
  returned :: "ccHObject option"
  result_code :: CC_FILE_ERROR
  loadParameters_out :: LoadParameters
  statics_out :: statics
  loadFile_calls :: "(string \<times> ccHObject \<times> LoadParameters) list"

text \<open>
  The \<^verbatim>\<open>try\<close> block around \<^verbatim>\<open>filter->loadFile\<close> with its two handlers, which both
  call \<^verbatim>\<open>container->removeAllChildren()\<close> and set \<^verbatim>\<open>CC_FERR_CONSOLE_ERROR\<close>.
\<close>

definition guarded_loadFile ::
  "FileIOFilter \<Rightarrow> string \<Rightarrow> ccHObject \<Rightarrow> LoadParameters \<Rightarrow>
     CC_FILE_ERROR \<times> ccHObject \<times> LoadParameters" where
  "guarded_loadFile f filename container lp =
     (case loadFile f filename container lp of
        Returned r c l \<Rightarrow> (r, c, l)
      | Threw e c l \<Rightarrow> (CC_FERR_CONSOLE_ERROR, removeAllChildren c, l))"

text \<open>The body of the loop over the children: \<^verbatim>\<open>unnamed\<close> gives way to the base name.\<close>

definition renameChild :: "string \<Rightarrow> ccHObject \<Rightarrow> ccHObject" where
  "renameChild base child =
     (let newName = getName child
      in if startsWith newName ''unnamed''
         then setName (replace ''unnamed'' base newName) child
         else child)"

text \<open>
  The end of \<^verbatim>\<open>LoadFromFile\<close>: a container with children is named
  \<^verbatim>\<open>QString("%1 (%2)").arg(fi.fileName(), fi.absolutePath())\<close> and its children are
  renamed; a container without children is deleted.
\<close>

definition nameContainer :: "FileSystem \<Rightarrow> string \<Rightarrow> ccHObject \<Rightarrow> ccHObject option" where
  "nameContainer fs filename container =
     (let childCount = getChildrenNumber container
      in if childCount \<noteq> 0
         then Some (ccHObject (fileName filename @ '' ('' @ absolutePath fs filename @ '')'')
                      (map (renameChild (baseName filename)) (getChildren container)))
         else None)"

definition LoadFromFile ::
  "FileSystem \<Rightarrow> statics \<Rightarrow> string \<Rightarrow> LoadParameters \<Rightarrow> FileIOFilter option \<Rightarrow> load_result" where
  "LoadFromFile fs st filename lp flt =
     (case flt of
        None \<Rightarrow>
          \<lparr>returned = None, result_code = CC_FERR_CONSOLE_ERROR, loadParameters_out = lp,
           statics_out = st, loadFile_calls = []\<rparr>
      | Some f \<Rightarrow>
          if \<not> file_exists fs filename
          then \<lparr>returned = None, result_code = CC_FERR_CONSOLE_ERROR, loadParameters_out = lp,
                statics_out = st, loadFile_calls = []\<rparr>
          else
            (let container = new_ccHObject;
                 (sessionCounter, st') = IncreaseSesionCounter st;
                 lp' = lp\<lparr>sessionStart := (sessionCounter = 1)\<rparr>;
                 (r, container', lp'') = guarded_loadFile f filename container lp'
             in \<lparr>returned = nameContainer fs filename container', result_code = r,
                 loadParameters_out = lp'', statics_out = st',
                 loadFile_calls = [(filename, container, lp')]\<rparr>))"

text \<open>
  A session as its caller drives it: consecutive calls of \<^verbatim>\<open>LoadFromFile\<close>, each with
  its own file name, load parameters and filter, on the statics the previous call left.
\<close>

type_synonym load_request = "string \<times> LoadParameters \<times> FileIOFilter option"

fun load_session :: "FileSystem \<Rightarrow> statics \<Rightarrow> load_request list \<Rightarrow> load_result list" where
  "load_session fs st [] = []"
| "load_session fs st ((filename, lp, flt) # rest) =
     (let res = LoadFromFile fs st filename lp flt
      in res # load_session fs (statics_out res) rest)"

text \<open>A request that passes both checks at the head of \<^verbatim>\<open>LoadFromFile\<close>.\<close>

fun valid_request :: "FileSystem \<Rightarrow> load_request \<Rightarrow> bool" where
  "valid_request fs (filename, lp, flt) = (flt \<noteq> None \<and> file_exists fs filename)"

text \<open>
  \<^verbatim>\<open>SaveToFile(entities, filename, parameters, filter)\<close>: the returned code, and the
  invocations of \<^verbatim>\<open>filter->saveToFile\<close> with their arguments.
\<close>

record save_result =
  save_code :: CC_FILE_ERROR
  saveToFile_calls :: "(ccHObject \<times> string \<times> SaveParameters) list"

definition SaveToFile ::
  "ccHObject option \<Rightarrow> string \<Rightarrow> SaveParameters \<Rightarrow> FileIOFilter option \<Rightarrow> save_result" where
  "SaveToFile entities filename parameters flt =
     (case entities of
        None \<Rightarrow> \<lparr>save_code = CC_FERR_BAD_ARGUMENT, saveToFile_calls = []\<rparr>
      | Some e \<Rightarrow>
          (case flt of
             None \<Rightarrow> \<lparr>save_code = CC_FERR_BAD_ARGUMENT, saveToFile_calls = []\<rparr>
           | Some f \<Rightarrow>
               if filename = []
               then \<lparr>save_code = CC_FERR_BAD_ARGUMENT, saveToFile_calls = []\<rparr>
               else
                 (let completeFileName =
                        (if suffix_of filename = []
                         then filename @ ''.'' @ getDefaultExtension f
                         else filename)
                  in \<lparr>save_code =
                        (case saveToFile f e completeFileName parameters of
                           SaveReturned r \<Rightarrow> r
                         | SaveThrew x \<Rightarrow> CC_FERR_CONSOLE_ERROR),
                      saveToFile_calls = [(e, completeFileName, parameters)]\<rparr>)))"

section \<open>The global shift\<close>

text \<open>
  \<^verbatim>\<open>ccGlobalShiftManager::Handle\<close> is defined outside this file. It is a parameter of
  the model: a function of the arguments that \<^verbatim>\<open>HandleGlobalShift\<close> passes (the point,
  the diagonal, the mode, \<^verbatim>\<open>useInputCoordinatesShiftIfPossible\<close>, and the values that the
  in/out arguments \<^verbatim>\<open>coordinatesShift\<close> and \<^verbatim>\<open>preserveCoordinateShift\<close> have on
  entry) to its return value and the values it leaves in \<^verbatim>\<open>coordinatesShift\<close>,
  \<^verbatim>\<open>preserveCoordinateShift\<close> and \<^verbatim>\<open>applyAll\<close>. The scale pointer is always null.
\<close>

type_synonym Handle_args = "CCVector3d \<times> real \<times> Mode \<times> bool \<times> CCVector3d \<times> bool"

type_synonym Handle_fn =
  "CCVector3d \<Rightarrow> real \<Rightarrow> Mode \<Rightarrow> bool \<Rightarrow> CCVector3d \<Rightarrow> bool \<Rightarrow> bool \<times> CCVector3d \<times> bool \<times> bool"

text \<open>
  The outcome of \<^verbatim>\<open>HandleGlobalShift\<close>: its return value, the reference arguments
  \<^verbatim>\<open>Pshift\<close>, \<^verbatim>\<open>preserveCoordinateShift\<close> and \<^verbatim>\<open>loadParameters\<close> as it leaves them,
  and the invocations of \<^verbatim>\<open>ccGlobalShiftManager::Handle\<close> with their arguments.
\<close>

record shift_result =
  shift_applied :: bool
  Pshift_out :: CCVector3d
  preserveCoordinateShift_out :: bool
  shift_loadParameters :: LoadParameters
  Handle_calls :: "Handle_args list"

definition shiftAlreadyEnabled :: "LoadParameters \<Rightarrow> bool" where
  "shiftAlreadyEnabled lp =
     (case coordinatesShiftEnabled lp of
        None \<Rightarrow> False
      | Some enabled \<Rightarrow> enabled \<and> coordinatesShift lp \<noteq> None)"

text \<open>
  \<^verbatim>\<open>HandleGlobalShift\<close>. \<open>sizeof_PointCoordinateType\<close> is the compile-time constant
  \<^verbatim>\<open>sizeof(PointCoordinateType)\<close> (4 for \<^verbatim>\<open>float\<close>, 8 for \<^verbatim>\<open>double\<close>); \<open>Pshift\<close> and
  \<open>preserveCoordinateShift\<close> are the values of the reference arguments on entry.
\<close>

definition HandleGlobalShift ::
  "nat \<Rightarrow> Handle_fn \<Rightarrow> CCVector3d \<Rightarrow> CCVector3d \<Rightarrow> bool \<Rightarrow> LoadParameters \<Rightarrow> bool \<Rightarrow> shift_result" where
  "HandleGlobalShift sizeof_PointCoordinateType Handle P Pshift preserveCoordinateShift lp
       useInputCoordinatesShiftIfPossible =
     (let enabled = shiftAlreadyEnabled lp;
          Pshift1 = (if enabled
                     then (case coordinatesShift lp of Some s \<Rightarrow> s | None \<Rightarrow> Pshift)
                     else Pshift);
          preserve1 = (if enabled then preserveShiftOnSave lp else preserveCoordinateShift)
      in if sizeof_PointCoordinateType < 8
         then
           (let useInput = (enabled \<or> useInputCoordinatesShiftIfPossible);
                (handled, Pshift2, preserve2, applyAll) =
                   Handle P 0 (shiftHandlingMode lp) useInput Pshift1 preserve1;
                calls = [(P, 0, shiftHandlingMode lp, useInput, Pshift1, preserve1)]
            in if handled
               then \<lparr>shift_applied = True, Pshift_out = Pshift2,
                     preserveCoordinateShift_out = preserve2,
                     shift_loadParameters =
                       (if applyAll \<and> coordinatesShiftEnabled lp \<noteq> None
                           \<and> coordinatesShift lp \<noteq> None
                        then lp\<lparr>coordinatesShiftEnabled := Some True,
                                coordinatesShift := Some Pshift2,
                                preserveShiftOnSave := preserve2\<rparr>
                        else lp),
                     Handle_calls = calls\<rparr>
               else \<lparr>shift_applied = False, Pshift_out = Pshift2,
                     preserveCoordinateShift_out = preserve2,
                     shift_loadParameters = lp, Handle_calls = calls\<rparr>)
         else \<lparr>shift_applied = False, Pshift_out = Pshift1,
               preserveCoordinateShift_out = preserve1,
               shift_loadParameters = lp, Handle_calls = []\<rparr>)"

section \<open>Sample filters, files and collaborators\<close>

text \<open>
  Concrete objects on which the theorems below are exercised: a file system that holds
  the one file \<^verbatim>\<open>/data/scan.asc\<close>, load parameters with and without an active shift,
  filters built from their address, file filters, extensions and behaviour, and two
  decision procedures for the global shift.
\<close>

definition sample_fs :: FileSystem where
  "sample_fs = \<lparr>file_exists = (\<lambda>p. p = ''/data/scan.asc''), absolutePath = (\<lambda>p. ''/data'')\<rparr>"

definition sample_lp :: LoadParameters where
  "sample_lp = \<lparr>shiftHandlingMode = 0, coordinatesShiftEnabled = Some False,
     coordinatesShift = Some (0, 0, 0), preserveShiftOnSave = False, sessionStart = False\<rparr>"

text \<open>
  Load parameters whose \<^verbatim>\<open>coordinatesShift\<close> pointer is null.
\<close>

definition sample_lp_null :: LoadParameters where
  "sample_lp_null = \<lparr>shiftHandlingMode = 0, coordinatesShiftEnabled = Some False,
     coordinatesShift = None, preserveShiftOnSave = False, sessionStart = True\<rparr>"

text \<open>
  Load parameters with an active shift.
\<close>

definition sample_lp_active :: LoadParameters where
  "sample_lp_active = \<lparr>shiftHandlingMode = 0, coordinatesShiftEnabled = Some True,
     coordinatesShift = Some (- 1000, - 2000, - 3000), preserveShiftOnSave = True,
     sessionStart = False\<rparr>"

definition sample_statics :: statics where
  "sample_statics = \<lparr>s_ioFilters = [], s_sessionCounter = 7\<rparr>"

definition sample_filter ::
  "nat \<Rightarrow> string list \<Rightarrow> string list \<Rightarrow>
   (string \<Rightarrow> ccHObject \<Rightarrow> LoadParameters \<Rightarrow> load_outcome) \<Rightarrow>
   (ccHObject \<Rightarrow> string \<Rightarrow> SaveParameters \<Rightarrow> save_outcome) \<Rightarrow> FileIOFilter" where
  "sample_filter p fileFilters exts ld sv =
     \<lparr>ptr = p, getFileFilters = (\<lambda>onImport. fileFilters), getDefaultExtension = ''bin'',
      canLoadExtension = (\<lambda>upperExt. upperExt \<in> set exts), loadFile = ld, saveToFile = sv\<rparr>"

text \<open>
  Four behaviours of \<^verbatim>\<open>loadFile\<close>: two children with placeholder names, one child
  whose name holds the placeholder twice, no child at all, and an exception thrown after a
  first child was added.
\<close>

definition load_two_unnamed :: "string \<Rightarrow> ccHObject \<Rightarrow> LoadParameters \<Rightarrow> load_outcome" where
  "load_two_unnamed filename container lp =
     Returned CC_FERR_NO_ERROR
       (ccHObject (getName container)
          (getChildren container @ [ccHObject ''unnamed'' [], ccHObject ''unnamed_cloud'' []])) lp"

definition load_unnamed_twice :: "string \<Rightarrow> ccHObject \<Rightarrow> LoadParameters \<Rightarrow> load_outcome" where
  "load_unnamed_twice filename container lp =
     Returned CC_FERR_NO_ERROR
       (ccHObject (getName container)
          (getChildren container @ [ccHObject ''unnamed_unnamed'' []])) lp"

definition load_nothing :: "string \<Rightarrow> ccHObject \<Rightarrow> LoadParameters \<Rightarrow> load_outcome" where
  "load_nothing filename container lp = Returned CC_FERR_NO_ERROR container lp"

definition load_throwing :: "string \<Rightarrow> ccHObject \<Rightarrow> LoadParameters \<Rightarrow> load_outcome" where
  "load_throwing filename container lp =
     Threw (std_exception ''bad header'')
       (ccHObject (getName container) (getChildren container @ [ccHObject ''partial'' []])) lp"

definition save_ok :: "ccHObject \<Rightarrow> string \<Rightarrow> SaveParameters \<Rightarrow> save_outcome" where
  "save_ok entities filename parameters = SaveReturned CC_FERR_NO_ERROR"

definition save_throwing :: "ccHObject \<Rightarrow> string \<Rightarrow> SaveParameters \<Rightarrow> save_outcome" where
  "save_throwing entities filename parameters = SaveThrew other_exception"

text \<open>
  A decision procedure that always computes a fresh shift from the point (the opposite
  of the point) and asks for it to be applied to all, and one that keeps the shift it is
  given when it is asked to use the input shift.
\<close>

definition Handle_recomputing :: Handle_fn where
  "Handle_recomputing P diagonal mode useInput shift preserve =
     (case P of (x, y, z) \<Rightarrow> (True, (- x, - y, - z), True, True))"

definition Handle_reusing :: Handle_fn where
  "Handle_reusing P diagonal mode useInput shift preserve =
     (if useInput then (True, shift, preserve, False)
      else Handle_recomputing P diagonal mode useInput shift preserve)"

section \<open>The registry: uniqueness and resolution\<close>

lemma alreadyHandled_iff:
  "alreadyHandled otherFilters fileFilters \<longleftrightarrow> set fileFilters \<inter> set otherFilters \<noteq> {}"
  by (induction fileFilters) auto

lemma Register_error_iff:
  "Register_error f reg \<longleftrightarrow>
     (\<exists>g \<in> set reg. ptr g = ptr f \<or>
        set (getFileFilters f True) \<inter> set (getFileFilters g True) \<noteq> {})"
  by (induction reg) (auto simp: alreadyHandled_iff Let_def)

lemma registry_inv_append:
  assumes inv: "registry_inv reg"
    and fresh: "\<not> Register_error f reg"
  shows "registry_inv (reg @ [f])"
proof -
  from fresh have new_ptr: "\<forall>g \<in> set reg. ptr g \<noteq> ptr f"
    and new_ff: "\<forall>g \<in> set reg. set (getFileFilters f True) \<inter> set (getFileFilters g True) = {}"
    by (auto simp: Register_error_iff)
  from inv new_ptr have "distinct (map ptr (reg @ [f]))"
    by (auto simp: registry_inv_def)
  moreover have "set (getFileFilters ((reg @ [f]) ! i) True) \<inter>
        set (getFileFilters ((reg @ [f]) ! j) True) = {}"
    if "i < length (reg @ [f])" "j < length (reg @ [f])" "i \<noteq> j" for i j
  proof (cases "i < length reg")
    case True
    note i = this
    show ?thesis
    proof (cases "j < length reg")
      case True
      with i inv that show ?thesis by (simp add: registry_inv_def nth_append)
    next
      case False
      with that have "j = length reg" by simp
      with i new_ff show ?thesis by (auto simp: nth_append)
    qed
  next
    case False
    with that have i: "i = length reg" and j: "j < length reg" by simp_all
    with new_ff show ?thesis by (auto simp: nth_append)
  qed
  ultimately show ?thesis unfolding registry_inv_def by blast
qed

lemma Register_accepts:
  "\<not> Register_error f (s_ioFilters st) \<Longrightarrow>
     Register st (Some f) = st\<lparr>s_ioFilters := s_ioFilters st @ [f]\<rparr>"
  by (simp add: Register_def)

lemma Register_preserves_inv:
  assumes "registry_inv (s_ioFilters st)"
  shows "registry_inv (s_ioFilters (Register st flt))"
proof (cases flt)
  case None
  with assms show ?thesis by (simp add: Register_def)
next
  case (Some f)
  with assms show ?thesis
    by (simp add: Register_def registry_inv_append)
qed

text \<open>
  The registry starts empty, so the invariant holds after any sequence of registrations.
\<close>

lemma registry_inv_reachable:
  "registry_inv (s_ioFilters (foldl Register \<lparr>s_ioFilters = [], s_sessionCounter = c\<rparr> flts))"
proof (induction flts rule: rev_induct)
  case Nil
  show ?case by (simp add: registry_inv_def)
next
  case (snoc flt flts)
  then show ?case by (simp add: Register_preserves_inv)
qed

text \<open>
  Claim C4. \<^verbatim>\<open>Register\<close> leaves the statics exactly as they are (same filters, same
  order) when the filter is null, when a registered filter is the same object, or when
  one of its import file filters belongs to a registered filter; and every call of
  \<^verbatim>\<open>Register\<close> preserves the invariant that no object is registered twice and no two
  registered filters share an import file filter.
\<close>

theorem Register_rejection_atomic:
  "((flt = None \<or>
      (\<exists>f g. flt = Some f \<and> g \<in> set (s_ioFilters st) \<and>
         (ptr g = ptr f \<or>
          set (getFileFilters f True) \<inter> set (getFileFilters g True) \<noteq> {})))
     \<longrightarrow> Register st flt = st) \<and>
   (registry_inv (s_ioFilters st) \<longrightarrow> registry_inv (s_ioFilters (Register st flt)))"
proof (intro conjI impI)
  assume "flt = None \<or>
      (\<exists>f g. flt = Some f \<and> g \<in> set (s_ioFilters st) \<and>
         (ptr g = ptr f \<or>
          set (getFileFilters f True) \<inter> set (getFileFilters g True) \<noteq> {}))"
  then show "Register st flt = st"
  proof
    assume "flt = None"
    then show ?thesis by (simp add: Register_def)
  next
    assume "\<exists>f g. flt = Some f \<and> g \<in> set (s_ioFilters st) \<and>
         (ptr g = ptr f \<or>
          set (getFileFilters f True) \<inter> set (getFileFilters g True) \<noteq> {})"
    then obtain f where "flt = Some f" and "Register_error f (s_ioFilters st)"
      unfolding Register_error_iff by blast
    then show ?thesis by (simp add: Register_def)
  qed
next
  assume "registry_inv (s_ioFilters st)"
  then show "registry_inv (s_ioFilters (Register st flt))"
    by (rule Register_preserves_inv)
qed

theorem Register_rejection_atomic_witness:
  "Register \<lparr>s_ioFilters = [sample_filter 1 [''ASCII cloud (*.asc)''] [''ASC''] load_nothing save_ok],
             s_sessionCounter = 0\<rparr>
      (Some (sample_filter 2 [''BIN (*.bin)'', ''ASCII cloud (*.asc)''] [''BIN''] load_nothing save_ok))
     = \<lparr>s_ioFilters = [sample_filter 1 [''ASCII cloud (*.asc)''] [''ASC''] load_nothing save_ok],
        s_sessionCounter = 0\<rparr> \<and>
   Register \<lparr>s_ioFilters = [sample_filter 1 [''ASCII cloud (*.asc)''] [''ASC''] load_nothing save_ok],
             s_sessionCounter = 0\<rparr>
      (Some (sample_filter 1 [''ASCII cloud (*.asc)''] [''ASC''] load_nothing save_ok))
     = \<lparr>s_ioFilters = [sample_filter 1 [''ASCII cloud (*.asc)''] [''ASC''] load_nothing save_ok],
        s_sessionCounter = 0\<rparr> \<and>
   registry_inv (s_ioFilters
     (Register \<lparr>s_ioFilters = [sample_filter 1 [''ASCII cloud (*.asc)''] [''ASC''] load_nothing save_ok],
                s_sessionCounter = 0\<rparr>
        (Some (sample_filter 3 [''PLY mesh (*.ply)''] [''PLY''] load_nothing save_ok))))"
proof -
  let ?A = "sample_filter 1 [''ASCII cloud (*.asc)''] [''ASC''] load_nothing save_ok"
  let ?B = "sample_filter 2 [''BIN (*.bin)'', ''ASCII cloud (*.asc)''] [''BIN''] load_nothing save_ok"
  let ?C = "sample_filter 3 [''PLY mesh (*.ply)''] [''PLY''] load_nothing save_ok"
  let ?st = "\<lparr>s_ioFilters = [?A], s_sessionCounter = 0\<rparr>"
  have clash: "\<exists>f g. Some ?B = Some f \<and> g \<in> set (s_ioFilters ?st) \<and>
      (ptr g = ptr f \<or> set (getFileFilters f True) \<inter> set (getFileFilters g True) \<noteq> {})"
    by (intro exI[of _ ?B] exI[of _ ?A]) (simp add: sample_filter_def)
  have twice: "\<exists>f g. Some ?A = Some f \<and> g \<in> set (s_ioFilters ?st) \<and>
      (ptr g = ptr f \<or> set (getFileFilters f True) \<inter> set (getFileFilters g True) \<noteq> {})"
    by (intro exI[of _ ?A] exI[of _ ?A]) simp
  have inv: "registry_inv (s_ioFilters ?st)"
    by (simp add: registry_inv_def)
  from Register_rejection_atomic[where flt = "Some ?B" and st = ?st] clash
  have 1: "Register ?st (Some ?B) = ?st" by blast
  from Register_rejection_atomic[where flt = "Some ?A" and st = ?st] twice
  have 2: "Register ?st (Some ?A) = ?st" by blast
  from Register_rejection_atomic[where flt = "Some ?C" and st = ?st] inv
  have 3: "registry_inv (s_ioFilters (Register ?st (Some ?C)))" by blast
  from 1 2 3 show ?thesis by blast
qed

lemma firstLoading_None:
  "firstLoading u reg = None \<longleftrightarrow> (\<forall>f \<in> set reg. \<not> canLoadExtension f u)"
  by (induction reg) auto

lemma firstLoading_Some:
  "firstLoading u reg = Some f \<Longrightarrow>
     \<exists>i < length reg. reg ! i = f \<and> canLoadExtension f u \<and>
        (\<forall>j < i. \<not> canLoadExtension (reg ! j) u)"
proof (induction reg)
  case Nil
  then show ?case by simp
next
  case (Cons it rest)
  show ?case
  proof (cases "canLoadExtension it u")
    case True
    with Cons.prems have "it = f" by simp
    with True show ?thesis by (intro exI[of _ 0]) simp
  next
    case False
    with Cons obtain i where i: "i < length rest" "rest ! i = f" "canLoadExtension f u"
      "\<forall>j < i. \<not> canLoadExtension (rest ! j) u" by auto
    have "\<forall>j < Suc i. \<not> canLoadExtension ((it # rest) ! j) u"
      using False i(4) by (auto simp: less_Suc_eq_0_disj)
    with i show ?thesis by (intro exI[of _ "Suc i"]) simp
  qed
qed

text \<open>
  Claim C9. \<^verbatim>\<open>FindBestFilterForExtension\<close> asks the filters in registration order
  whether they can load the upper-cased extension. Its result is the filter at the least
  index that accepts, so the first registered one among several that accept; it is null
  exactly when no registered filter accepts. Two spellings of an extension with the same
  upper-case form resolve to the same filter.
\<close>

theorem FindBestFilterForExtension_first_match:
  "(case FindBestFilterForExtension st ext of
      None \<Rightarrow> \<forall>f \<in> set (s_ioFilters st). \<not> canLoadExtension f (toUpper ext)
    | Some f \<Rightarrow>
        \<exists>i < length (s_ioFilters st). s_ioFilters st ! i = f \<and>
          canLoadExtension f (toUpper ext) \<and>
          (\<forall>j < i. \<not> canLoadExtension (s_ioFilters st ! j) (toUpper ext))) \<and>
   (\<forall>ext'. toUpper ext' = toUpper ext \<longrightarrow>
      FindBestFilterForExtension st ext' = FindBestFilterForExtension st ext)"
proof (intro conjI)
  show "case FindBestFilterForExtension st ext of
      None \<Rightarrow> \<forall>f \<in> set (s_ioFilters st). \<not> canLoadExtension f (toUpper ext)
    | Some f \<Rightarrow>
        \<exists>i < length (s_ioFilters st). s_ioFilters st ! i = f \<and>
          canLoadExtension f (toUpper ext) \<and>
          (\<forall>j < i. \<not> canLoadExtension (s_ioFilters st ! j) (toUpper ext))"
  proof (cases "FindBestFilterForExtension st ext")
    case None
    then have "firstLoading (toUpper ext) (s_ioFilters st) = None"
      by (simp add: FindBestFilterForExtension_def)
    then have "\<forall>f \<in> set (s_ioFilters st). \<not> canLoadExtension f (toUpper ext)"
      by (simp only: firstLoading_None)
    with None show ?thesis by simp
  next
    case (Some f)
    then have "firstLoading (toUpper ext) (s_ioFilters st) = Some f"
      by (simp add: FindBestFilterForExtension_def)
    from firstLoading_Some[OF this] Some show ?thesis by simp
  qed
next
  show "\<forall>ext'. toUpper ext' = toUpper ext \<longrightarrow>
      FindBestFilterForExtension st ext' = FindBestFilterForExtension st ext"
    by (simp add: FindBestFilterForExtension_def)
qed

theorem FindBestFilterForExtension_first_match_witness:
  "FindBestFilterForExtension
     \<lparr>s_ioFilters = [sample_filter 1 [''ASCII cloud (*.asc)''] [''ASC'', ''TXT''] load_nothing save_ok,
                     sample_filter 2 [''Other cloud (*.asc)''] [''ASC''] load_nothing save_ok],
      s_sessionCounter = 0\<rparr> ''Asc''
     = Some (sample_filter 1 [''ASCII cloud (*.asc)''] [''ASC'', ''TXT''] load_nothing save_ok) \<and>
   FindBestFilterForExtension
     \<lparr>s_ioFilters = [sample_filter 1 [''ASCII cloud (*.asc)''] [''ASC'', ''TXT''] load_nothing save_ok,
                     sample_filter 2 [''Other cloud (*.asc)''] [''ASC''] load_nothing save_ok],
      s_sessionCounter = 0\<rparr> ''asc''
     = Some (sample_filter 1 [''ASCII cloud (*.asc)''] [''ASC'', ''TXT''] load_nothing save_ok) \<and>
   FindBestFilterForExtension
     \<lparr>s_ioFilters = [sample_filter 1 [''ASCII cloud (*.asc)''] [''ASC'', ''TXT''] load_nothing save_ok,
                     sample_filter 2 [''Other cloud (*.asc)''] [''ASC''] load_nothing save_ok],
      s_sessionCounter = 0\<rparr> ''ply'' = None"
proof -
  let ?A = "sample_filter 1 [''ASCII cloud (*.asc)''] [''ASC'', ''TXT''] load_nothing save_ok"
  let ?B = "sample_filter 2 [''Other cloud (*.asc)''] [''ASC''] load_nothing save_ok"
  let ?st = "\<lparr>s_ioFilters = [?A, ?B], s_sessionCounter = 0\<rparr>"
  have up: "toUpper ''Asc'' = toUpper ''asc''"
    by (simp add: toUpper_def toUpper_char_def)
  have a: "FindBestFilterForExtension ?st ''asc'' = Some ?A"
    by (simp add: FindBestFilterForExtension_def toUpper_def toUpper_char_def sample_filter_def)
  have n: "FindBestFilterForExtension ?st ''ply'' = None"
    by (simp add: FindBestFilterForExtension_def toUpper_def toUpper_char_def sample_filter_def)
  from FindBestFilterForExtension_first_match[where st = ?st and ext = "''asc''"] up
  have "FindBestFilterForExtension ?st ''Asc'' = FindBestFilterForExtension ?st ''asc''"
    by blast
  with a n show ?thesis by simp
qed

section \<open>Loading: short-circuits, containment, empty results, renaming\<close>

lemma LoadFromFile_valid:
  assumes "file_exists fs filename"
  shows "LoadFromFile fs st filename lp (Some f) =
     (let lp' = lp\<lparr>sessionStart := (s_sessionCounter st + 1 = 1)\<rparr>;
          g = guarded_loadFile f filename new_ccHObject lp'
      in \<lparr>returned = nameContainer fs filename (fst (snd g)), result_code = fst g,
          loadParameters_out = snd (snd g),
          statics_out = st\<lparr>s_sessionCounter := s_sessionCounter st + 1\<rparr>,
          loadFile_calls = [(filename, new_ccHObject, lp')]\<rparr>)"
  using assms
  by (simp add: LoadFromFile_def IncreaseSesionCounter_def Let_def split: prod.split)

lemma LoadFromFile_valid_calls:
  assumes "valid_request fs (filename, lp, flt)"
  shows "loadFile_calls (LoadFromFile fs st filename lp flt) =
           [(filename, new_ccHObject, lp\<lparr>sessionStart := (s_sessionCounter st + 1 = 1)\<rparr>)] \<and>
         s_sessionCounter (statics_out (LoadFromFile fs st filename lp flt)) =
           s_sessionCounter st + 1"
proof -
  from assms obtain f where "flt = Some f" and "file_exists fs filename" by auto
  then show ?thesis by (simp add: LoadFromFile_valid Let_def)
qed

text \<open>
  Claim C7. With a null filter, or a path whose file does not exist, \<^verbatim>\<open>LoadFromFile\<close>
  returns a null container and \<^verbatim>\<open>CC_FERR_CONSOLE_ERROR\<close>; it makes no call of
  \<^verbatim>\<open>loadFile\<close>, and it leaves the load parameters and the statics (the session
  counter among them) as they were.
\<close>

theorem LoadFromFile_missing_file:
  "(flt = None \<or> \<not> file_exists fs filename) \<longrightarrow>
     LoadFromFile fs st filename lp flt =
       \<lparr>returned = None, result_code = CC_FERR_CONSOLE_ERROR, loadParameters_out = lp,
        statics_out = st, loadFile_calls = []\<rparr>"
  by (simp add: LoadFromFile_def split: option.split)

theorem LoadFromFile_missing_file_witness:
  "\<not> file_exists sample_fs ''/data/nothing.asc'' \<and>
   returned (LoadFromFile sample_fs sample_statics ''/data/nothing.asc'' sample_lp
      (Some (sample_filter 1 [] [''ASC''] load_two_unnamed save_ok))) = None \<and>
   result_code (LoadFromFile sample_fs sample_statics ''/data/nothing.asc'' sample_lp
      (Some (sample_filter 1 [] [''ASC''] load_two_unnamed save_ok))) = CC_FERR_CONSOLE_ERROR \<and>
   s_sessionCounter (statics_out (LoadFromFile sample_fs sample_statics ''/data/nothing.asc'' sample_lp
      (Some (sample_filter 1 [] [''ASC''] load_two_unnamed save_ok)))) = 7 \<and>
   loadFile_calls (LoadFromFile sample_fs sample_statics ''/data/nothing.asc'' sample_lp
      (Some (sample_filter 1 [] [''ASC''] load_two_unnamed save_ok))) = []"
proof -
  have missing: "\<not> file_exists sample_fs ''/data/nothing.asc''"
    by (simp add: sample_fs_def)
  with LoadFromFile_missing_file[where fs = sample_fs and filename = "''/data/nothing.asc''"
      and flt = "Some (sample_filter 1 [] [''ASC''] load_two_unnamed save_ok)"
      and st = sample_statics and lp = sample_lp]
  show ?thesis by (simp add: sample_statics_def)
qed

text \<open>
  Claim C3. When the filter and the file are there and \<^verbatim>\<open>loadFile\<close> returns a code
  and a container without children, \<^verbatim>\<open>LoadFromFile\<close> passes the filter's code on
  (\<^verbatim>\<open>CC_FERR_NO_ERROR\<close> when the filter says so) and returns a null container.
\<close>

theorem LoadFromFile_empty_result:
  assumes "file_exists fs filename"
    and "loadFile f filename new_ccHObject (lp\<lparr>sessionStart := (s_sessionCounter st + 1 = 1)\<rparr>)
           = Returned r c l"
    and "getChildren c = []"
  shows "result_code (LoadFromFile fs st filename lp (Some f)) = r \<and>
         returned (LoadFromFile fs st filename lp (Some f)) = None"
  using assms
  by (simp add: LoadFromFile_valid guarded_loadFile_def nameContainer_def
      getChildrenNumber_def Let_def)

theorem LoadFromFile_empty_result_witness:
  "result_code (LoadFromFile sample_fs sample_statics ''/data/scan.asc'' sample_lp
      (Some (sample_filter 1 [] [''ASC''] load_nothing save_ok))) = CC_FERR_NO_ERROR \<and>
   returned (LoadFromFile sample_fs sample_statics ''/data/scan.asc'' sample_lp
      (Some (sample_filter 1 [] [''ASC''] load_nothing save_ok))) = None"
proof -
  have ex: "file_exists sample_fs ''/data/scan.asc''"
    by (simp add: sample_fs_def)
  have ld: "loadFile (sample_filter 1 [] [''ASC''] load_nothing save_ok) ''/data/scan.asc'' new_ccHObject
          (sample_lp\<lparr>sessionStart := (s_sessionCounter sample_statics + 1 = 1)\<rparr>)
        = Returned CC_FERR_NO_ERROR new_ccHObject
          (sample_lp\<lparr>sessionStart := (s_sessionCounter sample_statics + 1 = 1)\<rparr>)"
    by (simp add: sample_filter_def load_nothing_def)
  have em: "getChildren new_ccHObject = []"
    by (simp add: new_ccHObject_def)
  from LoadFromFile_empty_result[OF ex ld em] show ?thesis .
qed

text \<open>
  Claim C2. When \<^verbatim>\<open>loadFile\<close> throws, whatever the exception and whatever it had
  put into the container, \<^verbatim>\<open>LoadFromFile\<close> returns \<^verbatim>\<open>CC_FERR_CONSOLE_ERROR\<close> and a
  null container, and the handler has left the container without children. When
  \<^verbatim>\<open>saveToFile\<close> throws, \<^verbatim>\<open>SaveToFile\<close> returns \<^verbatim>\<open>CC_FERR_CONSOLE_ERROR\<close>. In
  both cases the call returns a code: a throw of the filter is a value that the model maps
  to a result.
\<close>

theorem exceptions_contained:
  "(file_exists fs filename \<and>
    loadFile f filename new_ccHObject (lp\<lparr>sessionStart := (s_sessionCounter st + 1 = 1)\<rparr>)
      = Threw x c l
    \<longrightarrow> result_code (LoadFromFile fs st filename lp (Some f)) = CC_FERR_CONSOLE_ERROR \<and>
        returned (LoadFromFile fs st filename lp (Some f)) = None \<and>
        getChildren (fst (snd (guarded_loadFile f filename new_ccHObject
           (lp\<lparr>sessionStart := (s_sessionCounter st + 1 = 1)\<rparr>)))) = []) \<and>
   (filename' \<noteq> [] \<and>
    saveToFile f entities
      (if suffix_of filename' = [] then filename' @ ''.'' @ getDefaultExtension f else filename')
      parameters = SaveThrew x'
    \<longrightarrow> save_code (SaveToFile (Some entities) filename' parameters (Some f))
          = CC_FERR_CONSOLE_ERROR)"
  by (simp add: LoadFromFile_valid guarded_loadFile_def nameContainer_def
      getChildrenNumber_def removeAllChildren_def SaveToFile_def Let_def)

theorem exceptions_contained_witness:
  "result_code (LoadFromFile sample_fs sample_statics ''/data/scan.asc'' sample_lp
      (Some (sample_filter 1 [] [''ASC''] load_throwing save_throwing))) = CC_FERR_CONSOLE_ERROR \<and>
   returned (LoadFromFile sample_fs sample_statics ''/data/scan.asc'' sample_lp
      (Some (sample_filter 1 [] [''ASC''] load_throwing save_throwing))) = None \<and>
   save_code (SaveToFile (Some (ccHObject ''cloud'' [])) ''out'' (SaveParameters 0)
      (Some (sample_filter 1 [] [''ASC''] load_throwing save_throwing))) = CC_FERR_CONSOLE_ERROR"
  using exceptions_contained[where fs = sample_fs and filename = "''/data/scan.asc''"
      and f = "sample_filter 1 [] [''ASC''] load_throwing save_throwing" and lp = sample_lp
      and st = sample_statics and x = "std_exception ''bad header''"
      and c = "ccHObject [] [ccHObject ''partial'' []]"
      and l = "sample_lp\<lparr>sessionStart := False\<rparr>" and filename' = "''out''"
      and entities = "ccHObject ''cloud'' []" and parameters = "SaveParameters 0"
      and x' = other_exception]
  by (simp add: sample_fs_def sample_filter_def load_throwing_def save_throwing_def
      new_ccHObject_def sample_statics_def sample_lp_def)

lemma startsWith_prefix: "startsWith s p \<longleftrightarrow> prefix p s"
proof
  assume "startsWith s p"
  then have "s = p @ drop (length p) s"
    by (metis startsWith_def append_take_drop_id)
  then show "prefix p s" by (metis prefixI)
next
  assume "prefix p s"
  then show "startsWith s p" by (auto simp: startsWith_def prefix_def)
qed

lemma replace_absent: "\<not> sublist old s \<Longrightarrow> replace old new s = s"
proof (induction old new s rule: replace.induct)
  case (1 old new)
  then show ?case by simp
next
  case (2 old new c cs)
  from "2.prems" have np: "\<not> prefix old (c # cs)" and ns: "\<not> sublist old cs"
    by (simp_all add: sublist_Cons_right)
  from np have "\<not> startsWith (c # cs) old" by (simp add: startsWith_prefix)
  with "2.IH"(2) ns show ?case by simp
qed

lemma replace_at_head:
  "old \<noteq> [] \<Longrightarrow> replace old new (old @ rest) = new @ replace old new rest"
  by (cases old) (simp_all add: startsWith_def)

lemma renameChild_children: "getChildren (renameChild base child) = getChildren child"
  by (simp add: renameChild_def setName_def Let_def)

lemma renameChild_name:
  "getName (renameChild base child) =
     (if startsWith (getName child) ''unnamed''
      then replace ''unnamed'' base (getName child) else getName child)"
  by (simp add: renameChild_def setName_def Let_def)

lemma returned_Some:
  assumes "returned (LoadFromFile fs st filename lp (Some f)) = Some loaded"
  shows "\<exists>r c l.
     loadFile f filename new_ccHObject (lp\<lparr>sessionStart := (s_sessionCounter st + 1 = 1)\<rparr>)
       = Returned r c l \<and> getChildren c \<noteq> [] \<and>
     loaded = ccHObject (fileName filename @ '' ('' @ absolutePath fs filename @ '')'')
              (map (renameChild (baseName filename)) (getChildren c))"
proof -
  from assms have ex: "file_exists fs filename"
    by (auto simp: LoadFromFile_def split: if_splits)
  show ?thesis
  proof (cases "loadFile f filename new_ccHObject
      (lp\<lparr>sessionStart := (s_sessionCounter st + 1 = 1)\<rparr>)")
    case (Returned r c l)
    with assms ex show ?thesis
      by (auto simp: LoadFromFile_valid guarded_loadFile_def nameContainer_def
          getChildrenNumber_def Let_def split: if_splits)
  next
    case (Threw x c l)
    with assms ex show ?thesis
      by (simp add: LoadFromFile_valid guarded_loadFile_def nameContainer_def
          getChildrenNumber_def removeAllChildren_def Let_def)
  qed
qed

text \<open>
  Claim C5, as the code has it. A returned container is named
  \<^verbatim>\<open><file name> (<absolute path>)\<close>; it has the children the filter left, in the same
  order and with their own children untouched. A child whose name does not begin with
  \<^verbatim>\<open>unnamed\<close> keeps its name. In a child's name that begins with \<^verbatim>\<open>unnamed\<close>, every
  occurrence of \<^verbatim>\<open>unnamed\<close> is replaced by the base name of the file: the leading one,
  and those in the rest of the name. When the rest holds no further occurrence, the new
  name is the base name followed by the rest.
\<close>

theorem LoadFromFile_renaming:
  assumes "returned (LoadFromFile fs st filename lp (Some f)) = Some loaded"
  shows "\<exists>r c l.
     loadFile f filename new_ccHObject (lp\<lparr>sessionStart := (s_sessionCounter st + 1 = 1)\<rparr>)
       = Returned r c l \<and>
     getName loaded = fileName filename @ '' ('' @ absolutePath fs filename @ '')'' \<and>
     length (getChildren loaded) = length (getChildren c) \<and>
     (\<forall>i < length (getChildren c).
        getChildren (getChildren loaded ! i) = getChildren (getChildren c ! i) \<and>
        (\<not> startsWith (getName (getChildren c ! i)) ''unnamed'' \<longrightarrow>
           getName (getChildren loaded ! i) = getName (getChildren c ! i)) \<and>
        (\<forall>rest. getName (getChildren c ! i) = ''unnamed'' @ rest \<longrightarrow>
           getName (getChildren loaded ! i) =
             baseName filename @ replace ''unnamed'' (baseName filename) rest \<and>
           (\<not> sublist ''unnamed'' rest \<longrightarrow>
              getName (getChildren loaded ! i) = baseName filename @ rest)))"
proof -
  from returned_Some[OF assms] obtain r c l where
    ld: "loadFile f filename new_ccHObject (lp\<lparr>sessionStart := (s_sessionCounter st + 1 = 1)\<rparr>)
       = Returned r c l"
    and loaded: "loaded = ccHObject (fileName filename @ '' ('' @ absolutePath fs filename @ '')'')
              (map (renameChild (baseName filename)) (getChildren c))"
    by blast
  have child: "getChildren (getChildren loaded ! i) = getChildren (getChildren c ! i) \<and>
        (\<not> startsWith (getName (getChildren c ! i)) ''unnamed'' \<longrightarrow>
           getName (getChildren loaded ! i) = getName (getChildren c ! i)) \<and>
        (\<forall>rest. getName (getChildren c ! i) = ''unnamed'' @ rest \<longrightarrow>
           getName (getChildren loaded ! i) =
             baseName filename @ replace ''unnamed'' (baseName filename) rest \<and>
           (\<not> sublist ''unnamed'' rest \<longrightarrow>
              getName (getChildren loaded ! i) = baseName filename @ rest))"
    if i: "i < length (getChildren c)" for i
  proof -
    from loaded i have ri: "getChildren loaded ! i = renameChild (baseName filename) (getChildren c ! i)"
      by simp
    have "getName (getChildren loaded ! i) =
             baseName filename @ replace ''unnamed'' (baseName filename) rest"
      if n: "getName (getChildren c ! i) = ''unnamed'' @ rest" for rest
    proof -
      from n have "startsWith (getName (getChildren c ! i)) ''unnamed''"
        by (simp add: startsWith_def)
      with n have "getName (getChildren loaded ! i) =
          replace ''unnamed'' (baseName filename) (''unnamed'' @ rest)"
        by (simp only: ri renameChild_name if_True)
      also have "\<dots> = baseName filename @ replace ''unnamed'' (baseName filename) rest"
        by (rule replace_at_head) simp
      finally show ?thesis .
    qed
    then show ?thesis
      by (simp add: ri renameChild_children renameChild_name replace_absent)
  qed
  from loaded have "getName loaded = fileName filename @ '' ('' @ absolutePath fs filename @ '')''"
    and "length (getChildren loaded) = length (getChildren c)"
    by simp_all
  with ld child show ?thesis by blast
qed

theorem LoadFromFile_renaming_witness:
  "returned (LoadFromFile sample_fs sample_statics ''/data/scan.asc'' sample_lp
     (Some (sample_filter 1 [] [''ASC''] load_two_unnamed save_ok)))
     = Some (ccHObject ''scan.asc (/data)'' [ccHObject ''scan'' [], ccHObject ''scan_cloud'' []]) \<and>
   (\<exists>r c l.
     loadFile (sample_filter 1 [] [''ASC''] load_two_unnamed save_ok) ''/data/scan.asc''
        new_ccHObject (sample_lp\<lparr>sessionStart := (s_sessionCounter sample_statics + 1 = 1)\<rparr>)
       = Returned r c l \<and>
     (\<forall>i < length (getChildren c).
        \<forall>rest. getName (getChildren c ! i) = ''unnamed'' @ rest \<longrightarrow>
           getName (getChildren
              (ccHObject ''scan.asc (/data)'' [ccHObject ''scan'' [], ccHObject ''scan_cloud'' []]) ! i)
             = baseName ''/data/scan.asc'' @ replace ''unnamed'' (baseName ''/data/scan.asc'') rest))"
proof -
  have h: "returned (LoadFromFile sample_fs sample_statics ''/data/scan.asc'' sample_lp
     (Some (sample_filter 1 [] [''ASC''] load_two_unnamed save_ok)))
     = Some (ccHObject ''scan.asc (/data)'' [ccHObject ''scan'' [], ccHObject ''scan_cloud'' []])"
    by (simp add: LoadFromFile_def sample_fs_def sample_filter_def load_two_unnamed_def
      IncreaseSesionCounter_def guarded_loadFile_def nameContainer_def getChildrenNumber_def
      new_ccHObject_def renameChild_def setName_def startsWith_def fileName_def baseName_def
      Let_def)
  from LoadFromFile_renaming[OF h] h show ?thesis by blast
qed

text \<open>
  The claim as it is written replaces the leading token only. A child named
  \<^verbatim>\<open>unnamed_unnamed\<close>, loaded from \<^verbatim>\<open>scan.asc\<close>, becomes \<^verbatim>\<open>scan_scan\<close>, not
  \<^verbatim>\<open>scan_unnamed\<close>.
\<close>

theorem LoadFromFile_renaming_counterexample:
  "returned (LoadFromFile sample_fs sample_statics ''/data/scan.asc'' sample_lp
     (Some (sample_filter 1 [] [''ASC''] load_unnamed_twice save_ok)))
     = Some (ccHObject ''scan.asc (/data)'' [ccHObject ''scan_scan'' []]) \<and>
   ''scan_scan'' \<noteq> baseName ''/data/scan.asc'' @ drop (length ''unnamed'') ''unnamed_unnamed''"
  by (simp add: LoadFromFile_def sample_fs_def sample_filter_def load_unnamed_twice_def
      IncreaseSesionCounter_def guarded_loadFile_def nameContainer_def getChildrenNumber_def
      new_ccHObject_def renameChild_def setName_def startsWith_def fileName_def baseName_def
      Let_def)

section \<open>The session counter and the session-start flag\<close>

lemma load_session_nth:
  assumes "\<forall>req \<in> set rs. valid_request fs req" and "k < length rs"
  shows "loadFile_calls (load_session fs st rs ! k) =
           [(fst (rs ! k), new_ccHObject,
             (fst (snd (rs ! k)))\<lparr>sessionStart := (s_sessionCounter st + of_nat (Suc k) = 1)\<rparr>)] \<and>
         s_sessionCounter (statics_out (load_session fs st rs ! k)) =
           s_sessionCounter st + of_nat (Suc k)"
  using assms
proof (induction rs arbitrary: st k)
  case Nil
  then show ?case by simp
next
  case (Cons req rest)
  obtain filename lp flt where req: "req = (filename, lp, flt)" by (cases req)
  from Cons.prems(1) req have v: "valid_request fs (filename, lp, flt)" by simp
  note first = LoadFromFile_valid_calls[OF v, of st]
  show ?case
  proof (cases k)
    case 0
    with first req show ?thesis by (simp add: Let_def)
  next
    case (Suc k')
    with Cons.prems have "\<forall>r \<in> set rest. valid_request fs r" and "k' < length rest"
      by simp_all
    from Cons.IH[OF this, of "statics_out (LoadFromFile fs st filename lp flt)"] first
    show ?thesis by (simp add: req Suc Let_def add.assoc)
  qed
qed

lemma counter_is_one: "k < 2 ^ 32 \<Longrightarrow> (of_nat (Suc k) = (1 :: 32 word)) \<longleftrightarrow> k = 0"
proof -
  assume k: "k < 2 ^ 32"
  have "(of_nat (Suc k) = (1 :: 32 word)) \<longleftrightarrow> (of_nat k = (0 :: 32 word))"
    by simp
  also have "\<dots> \<longleftrightarrow> 2 ^ 32 dvd k"
    by (simp add: word_of_nat_eq_0_iff)
  also from k have "\<dots> \<longleftrightarrow> k = 0"
    by (auto dest: dvd_imp_le)
  finally show ?thesis .
qed

text \<open>
  Claim C6, as the code has it. After \<^verbatim>\<open>ResetSesionCounter\<close>, in a sequence of valid
  loads, the load at position \<open>k\<close> (counted from 0, and below \<open>2 ^ 32\<close>) calls
  \<^verbatim>\<open>loadFile\<close> once, with load parameters whose \<^verbatim>\<open>sessionStart\<close> is true for the first
  load and false for the later ones, and leaves the counter at \<open>k + 1\<close>. The statics
  before the reset are arbitrary, so the same holds after every later reset.
\<close>

theorem sessionStart_flag:
  assumes "\<forall>req \<in> set rs. valid_request fs req" and "k < length rs" and "k < 2 ^ 32"
  shows "loadFile_calls (load_session fs (ResetSesionCounter st) rs ! k) =
           [(fst (rs ! k), new_ccHObject, (fst (snd (rs ! k)))\<lparr>sessionStart := (k = 0)\<rparr>)] \<and>
         s_sessionCounter (statics_out (load_session fs (ResetSesionCounter st) rs ! k)) =
           of_nat (Suc k)"
  using load_session_nth[OF assms(1,2), of "ResetSesionCounter st"] counter_is_one[OF assms(3)]
  by (simp add: ResetSesionCounter_def)

theorem sessionStart_flag_witness:
  "map (\<lambda>(filename, container, lp). sessionStart lp)
     (loadFile_calls
        (load_session sample_fs (ResetSesionCounter sample_statics)
           [(''/data/scan.asc'', sample_lp, Some (sample_filter 1 [] [''ASC''] load_two_unnamed save_ok)),
            (''/data/scan.asc'', sample_lp, Some (sample_filter 1 [] [''ASC''] load_nothing save_ok))]
         ! 0)) = [True] \<and>
   map (\<lambda>(filename, container, lp). sessionStart lp)
     (loadFile_calls
        (load_session sample_fs (ResetSesionCounter sample_statics)
           [(''/data/scan.asc'', sample_lp, Some (sample_filter 1 [] [''ASC''] load_two_unnamed save_ok)),
            (''/data/scan.asc'', sample_lp, Some (sample_filter 1 [] [''ASC''] load_nothing save_ok))]
         ! Suc 0)) = [False] \<and>
   map (\<lambda>(filename, container, lp). sessionStart lp)
     (loadFile_calls
        (load_session sample_fs
           (ResetSesionCounter
              (statics_out
                 (load_session sample_fs (ResetSesionCounter sample_statics)
                    [(''/data/scan.asc'', sample_lp,
                      Some (sample_filter 1 [] [''ASC''] load_two_unnamed save_ok)),
                     (''/data/scan.asc'', sample_lp,
                      Some (sample_filter 1 [] [''ASC''] load_nothing save_ok))]
                  ! Suc 0)))
           [(''/data/scan.asc'', sample_lp, Some (sample_filter 1 [] [''ASC''] load_nothing save_ok))]
         ! 0)) = [True]"
proof -
  let ?r1 = "(''/data/scan.asc'', sample_lp,
     Some (sample_filter 1 [] [''ASC''] load_two_unnamed save_ok))"
  let ?r2 = "(''/data/scan.asc'', sample_lp,
     Some (sample_filter 1 [] [''ASC''] load_nothing save_ok))"
  have v: "\<forall>req \<in> set [?r1, ?r2]. valid_request sample_fs req"
    and v': "\<forall>req \<in> set [?r2]. valid_request sample_fs req"
    by (simp_all add: sample_fs_def)
  have k0: "0 < length [?r1, ?r2]" and k1: "Suc 0 < length [?r1, ?r2]"
    and k0': "0 < length [?r2]" by simp_all
  have b0: "(0 :: nat) < 2 ^ 32" and b1: "Suc 0 < 2 ^ 32" by simp_all
  note t0 = sessionStart_flag[where st = sample_statics, OF v k0 b0]
  note t1 = sessionStart_flag[where st = sample_statics, OF v k1 b1]
  note t2 = sessionStart_flag[where st = "statics_out
      (load_session sample_fs (ResetSesionCounter sample_statics) [?r1, ?r2] ! Suc 0)",
      OF v' k0' b0]
  from t0 t1 t2 show ?thesis by simp
qed

text \<open>
  The claim as it is written holds for every sequence of loads. The counter is an
  \<^verbatim>\<open>unsigned\<close>: after \<open>2 ^ 32\<close> loads it is back at 0, and the next load of the
  same session, the one at position \<open>2 ^ 32\<close>, sees \<^verbatim>\<open>sessionStart\<close> true again.
\<close>

theorem sessionStart_flag_counterexample:
  "map (\<lambda>(filename, container, lp). sessionStart lp)
     (loadFile_calls
        (load_session sample_fs (ResetSesionCounter sample_statics)
           (replicate (2 ^ 32 + 1)
              (''/data/scan.asc'', sample_lp,
               Some (sample_filter 1 [] [''ASC''] load_two_unnamed save_ok)))
         ! (2 ^ 32))) = [True]"
proof -
  let ?req = "(''/data/scan.asc'', sample_lp,
               Some (sample_filter 1 [] [''ASC''] load_two_unnamed save_ok))"
  let ?rs = "replicate (2 ^ 32 + 1) ?req"
  have v: "\<forall>req \<in> set ?rs. valid_request sample_fs req"
    by (simp add: sample_fs_def)
  have k: "(2 ^ 32 :: nat) < length ?rs" by simp
  have w: "(of_nat (Suc (2 ^ 32)) :: 32 word) = 1" by simp
  from load_session_nth[OF v k, of "ResetSesionCounter sample_statics"]
  have "loadFile_calls (load_session sample_fs (ResetSesionCounter sample_statics) ?rs ! (2 ^ 32)) =
     [(fst (?rs ! (2 ^ 32)), new_ccHObject,
       (fst (snd (?rs ! (2 ^ 32))))\<lparr>sessionStart :=
          (s_sessionCounter (ResetSesionCounter sample_statics) + of_nat (Suc (2 ^ 32)) = 1)\<rparr>)]"
    by (rule conjunct1)
  then show ?thesis
    by (simp only: w ResetSesionCounter_def) (simp add: ResetSesionCounter_def)
qed

section \<open>The global shift\<close>

lemma shiftAlreadyEnabled_iff:
  "shiftAlreadyEnabled lp \<longleftrightarrow>
     coordinatesShiftEnabled lp = Some True \<and> coordinatesShift lp \<noteq> None"
  by (auto simp: shiftAlreadyEnabled_def split: option.splits)

text \<open>
  Claim C8. When \<^verbatim>\<open>sizeof(PointCoordinateType)\<close> is 8 or more,
  \<^verbatim>\<open>HandleGlobalShift\<close> returns false and leaves the load parameters as they are,
  whatever the point, the mode and the decision procedure; when no shift is active it
  also leaves \<^verbatim>\<open>Pshift\<close> and \<^verbatim>\<open>preserveCoordinateShift\<close> as they are. The decision
  procedure is called exactly when the size is below 8.
\<close>

theorem HandleGlobalShift_full_precision:
  "(8 \<le> sz \<longrightarrow>
      shift_applied (HandleGlobalShift sz Handle P Pshift preserve lp useInput) = False \<and>
      shift_loadParameters (HandleGlobalShift sz Handle P Pshift preserve lp useInput) = lp \<and>
      (\<not> shiftAlreadyEnabled lp \<longrightarrow>
         Pshift_out (HandleGlobalShift sz Handle P Pshift preserve lp useInput) = Pshift \<and>
         preserveCoordinateShift_out (HandleGlobalShift sz Handle P Pshift preserve lp useInput)
           = preserve)) \<and>
   (Handle_calls (HandleGlobalShift sz Handle P Pshift preserve lp useInput) = [] \<longleftrightarrow> 8 \<le> sz)"
  by (auto simp: HandleGlobalShift_def Let_def split: prod.splits)

theorem HandleGlobalShift_full_precision_witness:
  "shift_applied (HandleGlobalShift 8 Handle_recomputing (1000, 2000, 3000) (0, 0, 0) False
      sample_lp False) = False \<and>
   shift_loadParameters (HandleGlobalShift 8 Handle_recomputing (1000, 2000, 3000) (0, 0, 0) False
      sample_lp False) = sample_lp \<and>
   Pshift_out (HandleGlobalShift 8 Handle_recomputing (1000, 2000, 3000) (0, 0, 0) False
      sample_lp False) = (0, 0, 0) \<and>
   Handle_calls (HandleGlobalShift 8 Handle_recomputing (1000, 2000, 3000) (0, 0, 0) False
      sample_lp False) = []"
  using HandleGlobalShift_full_precision[where sz = 8 and Handle = Handle_recomputing
      and P = "(1000, 2000, 3000)" and Pshift = "(0, 0, 0)" and preserve = False
      and lp = sample_lp and useInput = False]
  by (simp add: shiftAlreadyEnabled_def sample_lp_def)

text \<open>
  Claim C10. When the decision procedure is called (size below 8), returns true and sets
  \<^verbatim>\<open>applyAll\<close>, \<^verbatim>\<open>HandleGlobalShift\<close> returns true with the computed shift and flag.
  It stores them in the load parameters (enabled flag true, shift, preserve-on-save flag)
  when both pointers \<^verbatim>\<open>coordinatesShiftEnabled\<close> and \<^verbatim>\<open>coordinatesShift\<close> are non-null.
  When one of them is null the load parameters are left as they are, and a later call
  does not find the shift enabled.
\<close>

theorem HandleGlobalShift_persistence:
  assumes "sz < 8"
    and "Handle P 0 (shiftHandlingMode lp) (shiftAlreadyEnabled lp \<or> useInput)
           (if shiftAlreadyEnabled lp
            then (case coordinatesShift lp of Some s \<Rightarrow> s | None \<Rightarrow> Pshift) else Pshift)
           (if shiftAlreadyEnabled lp then preserveShiftOnSave lp else preserve)
         = (True, S, pr, True)"
  shows "shift_applied (HandleGlobalShift sz Handle P Pshift preserve lp useInput) = True \<and>
     Pshift_out (HandleGlobalShift sz Handle P Pshift preserve lp useInput) = S \<and>
     preserveCoordinateShift_out (HandleGlobalShift sz Handle P Pshift preserve lp useInput) = pr \<and>
     (coordinatesShiftEnabled lp \<noteq> None \<and> coordinatesShift lp \<noteq> None \<longrightarrow>
        shift_loadParameters (HandleGlobalShift sz Handle P Pshift preserve lp useInput) =
          lp\<lparr>coordinatesShiftEnabled := Some True, coordinatesShift := Some S,
             preserveShiftOnSave := pr\<rparr>) \<and>
     (coordinatesShiftEnabled lp = None \<or> coordinatesShift lp = None \<longrightarrow>
        shift_loadParameters (HandleGlobalShift sz Handle P Pshift preserve lp useInput) = lp \<and>
        \<not> shiftAlreadyEnabled
            (shift_loadParameters (HandleGlobalShift sz Handle P Pshift preserve lp useInput)))"
proof -
  from assms have r: "HandleGlobalShift sz Handle P Pshift preserve lp useInput =
     \<lparr>shift_applied = True, Pshift_out = S, preserveCoordinateShift_out = pr,
      shift_loadParameters =
        (if coordinatesShiftEnabled lp \<noteq> None \<and> coordinatesShift lp \<noteq> None
         then lp\<lparr>coordinatesShiftEnabled := Some True, coordinatesShift := Some S,
                 preserveShiftOnSave := pr\<rparr>
         else lp),
      Handle_calls = [(P, 0, shiftHandlingMode lp, shiftAlreadyEnabled lp \<or> useInput,
         (if shiftAlreadyEnabled lp
            then (case coordinatesShift lp of Some s \<Rightarrow> s | None \<Rightarrow> Pshift) else Pshift),
         (if shiftAlreadyEnabled lp then preserveShiftOnSave lp else preserve))]\<rparr>"
    by (simp add: HandleGlobalShift_def Let_def)
  show ?thesis
    unfolding r by (auto simp: shiftAlreadyEnabled_iff)
qed

theorem HandleGlobalShift_persistence_witness:
  "shift_applied (HandleGlobalShift 4 Handle_recomputing (1000, 2000, 3000) (0, 0, 0) False
      sample_lp_null False) = True \<and>
   Pshift_out (HandleGlobalShift 4 Handle_recomputing (1000, 2000, 3000) (0, 0, 0) False
      sample_lp_null False) = (- 1000, - 2000, - 3000) \<and>
   shift_loadParameters (HandleGlobalShift 4 Handle_recomputing (1000, 2000, 3000) (0, 0, 0) False
      sample_lp_null False) = sample_lp_null \<and>
   \<not> shiftAlreadyEnabled
       (shift_loadParameters
          (HandleGlobalShift 4 Handle_recomputing (1000, 2000, 3000) (0, 0, 0) False
             sample_lp_null False)) \<and>
   shift_loadParameters
     (HandleGlobalShift 4 Handle_recomputing (1000, 2000, 3000) (0, 0, 0) False sample_lp False)
     = sample_lp\<lparr>coordinatesShiftEnabled := Some True,
          coordinatesShift := Some (- 1000, - 2000, - 3000), preserveShiftOnSave := True\<rparr>"
proof -
  have sz: "(4 :: nat) < 8" by simp
  have h1: "Handle_recomputing (1000, 2000, 3000) 0 (shiftHandlingMode sample_lp_null)
           (shiftAlreadyEnabled sample_lp_null \<or> False)
           (if shiftAlreadyEnabled sample_lp_null
            then (case coordinatesShift sample_lp_null of Some s \<Rightarrow> s | None \<Rightarrow> (0, 0, 0))
            else (0, 0, 0))
           (if shiftAlreadyEnabled sample_lp_null then preserveShiftOnSave sample_lp_null else False)
         = (True, (- 1000, - 2000, - 3000), True, True)"
    by (simp add: Handle_recomputing_def)
  have h2: "Handle_recomputing (1000, 2000, 3000) 0 (shiftHandlingMode sample_lp)
           (shiftAlreadyEnabled sample_lp \<or> False)
           (if shiftAlreadyEnabled sample_lp
            then (case coordinatesShift sample_lp of Some s \<Rightarrow> s | None \<Rightarrow> (0, 0, 0))
            else (0, 0, 0))
           (if shiftAlreadyEnabled sample_lp then preserveShiftOnSave sample_lp else False)
         = (True, (- 1000, - 2000, - 3000), True, True)"
    by (simp add: Handle_recomputing_def)
  have null: "coordinatesShift sample_lp_null = None" by (simp add: sample_lp_null_def)
  have nonnull: "coordinatesShiftEnabled sample_lp \<noteq> None \<and> coordinatesShift sample_lp \<noteq> None"
    by (simp add: sample_lp_def)
  note t1 = HandleGlobalShift_persistence[where sz = 4 and Handle = Handle_recomputing
      and P = "(1000, 2000, 3000)" and Pshift = "(0, 0, 0)" and preserve = False
      and lp = sample_lp_null and useInput = False and S = "(- 1000, - 2000, - 3000)"
      and pr = True, OF sz h1]
  note t2 = HandleGlobalShift_persistence[where sz = 4 and Handle = Handle_recomputing
      and P = "(1000, 2000, 3000)" and Pshift = "(0, 0, 0)" and preserve = False
      and lp = sample_lp and useInput = False and S = "(- 1000, - 2000, - 3000)"
      and pr = True, OF sz h2]
  from t1 t2 null nonnull
  show ?thesis by blast
qed

text \<open>
  Claim C1, as the code has it. While a shift is active (the enabled flag is true and a
  shift vector is stored), \<^verbatim>\<open>HandleGlobalShift\<close> puts the stored shift and the stored
  preserve-on-save flag into its output arguments and, when the size is below 8, calls
  the decision procedure once, with these values in its in/out arguments and with
  \<^verbatim>\<open>useInputCoordinatesShiftIfPossible\<close> true. What it reports is what the decision
  procedure leaves in these arguments. Whenever the decision procedure is not called, or
  leaves the shift and the flag it was given, the reported shift and flag are the stored
  ones and the load parameters are unchanged.
\<close>

theorem HandleGlobalShift_active_shift:
  assumes "coordinatesShiftEnabled lp = Some True" and "coordinatesShift lp = Some S"
  shows
    "Handle_calls (HandleGlobalShift sz Handle P Pshift preserve lp useInput) =
       (if sz < 8 then [(P, 0, shiftHandlingMode lp, True, S, preserveShiftOnSave lp)] else []) \<and>
     (sz < 8 \<longrightarrow>
        (shift_applied (HandleGlobalShift sz Handle P Pshift preserve lp useInput),
         Pshift_out (HandleGlobalShift sz Handle P Pshift preserve lp useInput),
         preserveCoordinateShift_out (HandleGlobalShift sz Handle P Pshift preserve lp useInput))
        = (case Handle P 0 (shiftHandlingMode lp) True S (preserveShiftOnSave lp) of
             (handled, Pshift2, preserve2, applyAll) \<Rightarrow> (handled, Pshift2, preserve2))) \<and>
     (8 \<le> sz \<or>
      (case Handle P 0 (shiftHandlingMode lp) True S (preserveShiftOnSave lp) of
         (handled, Pshift2, preserve2, applyAll) \<Rightarrow>
            Pshift2 = S \<and> preserve2 = preserveShiftOnSave lp) \<longrightarrow>
        Pshift_out (HandleGlobalShift sz Handle P Pshift preserve lp useInput) = S \<and>
        preserveCoordinateShift_out (HandleGlobalShift sz Handle P Pshift preserve lp useInput)
          = preserveShiftOnSave lp \<and>
        shift_loadParameters (HandleGlobalShift sz Handle P Pshift preserve lp useInput) = lp)"
proof -
  from assms have en: "shiftAlreadyEnabled lp"
    by (simp add: shiftAlreadyEnabled_def)
  obtain handled Pshift2 preserve2 applyAll where
    h: "Handle P 0 (shiftHandlingMode lp) True S (preserveShiftOnSave lp)
          = (handled, Pshift2, preserve2, applyAll)"
    by (metis prod_cases4)
  have same: "lp\<lparr>coordinatesShiftEnabled := Some True, coordinatesShift := Some S,
                 preserveShiftOnSave := preserveShiftOnSave lp\<rparr> = lp"
    using assms by simp
  show ?thesis
  proof (cases "sz < 8")
    case True
    with en h assms same show ?thesis
      by (auto simp: HandleGlobalShift_def Let_def)
  next
    case False
    with en assms show ?thesis
      by (simp add: HandleGlobalShift_def Let_def)
  qed
qed

text \<open>
  A first call, without an active shift, stores the shift \<open>(-1000, -2000, -3000)\<close>
  for all; a second call with another point, through a decision procedure that keeps the
  shift it is given, reports that same shift.
\<close>

theorem HandleGlobalShift_active_shift_witness:
  "shift_loadParameters
     (HandleGlobalShift 4 Handle_reusing (1000, 2000, 3000) (0, 0, 0) False sample_lp False)
     = sample_lp_active \<and>
   Pshift_out (HandleGlobalShift 4 Handle_reusing (1005, 2006, 3007) (0, 0, 0) False
      sample_lp_active False) = (- 1000, - 2000, - 3000) \<and>
   preserveCoordinateShift_out (HandleGlobalShift 4 Handle_reusing (1005, 2006, 3007) (0, 0, 0)
      False sample_lp_active False) = True \<and>
   shift_loadParameters (HandleGlobalShift 4 Handle_reusing (1005, 2006, 3007) (0, 0, 0) False
      sample_lp_active False) = sample_lp_active \<and>
   Handle_calls (HandleGlobalShift 4 Handle_reusing (1005, 2006, 3007) (0, 0, 0) False
      sample_lp_active False)
     = [((1005, 2006, 3007), 0, 0, True, (- 1000, - 2000, - 3000), True)]"
proof -
  have first: "shift_loadParameters
     (HandleGlobalShift 4 Handle_reusing (1000, 2000, 3000) (0, 0, 0) False sample_lp False)
     = sample_lp_active"
    by (simp add: HandleGlobalShift_def shiftAlreadyEnabled_def sample_lp_def
        sample_lp_active_def Handle_reusing_def Handle_recomputing_def Let_def)
  have en: "coordinatesShiftEnabled sample_lp_active = Some True"
    and sh: "coordinatesShift sample_lp_active = Some (- 1000, - 2000, - 3000)"
    by (simp_all add: sample_lp_active_def)
  have keep: "case Handle_reusing (1005, 2006, 3007) 0 (shiftHandlingMode sample_lp_active) True
        (- 1000, - 2000, - 3000) (preserveShiftOnSave sample_lp_active) of
      (handled, Pshift2, preserve2, applyAll) \<Rightarrow>
        Pshift2 = (- 1000, - 2000, - 3000) \<and> preserve2 = preserveShiftOnSave sample_lp_active"
    by (simp add: Handle_reusing_def)
  have pr: "preserveShiftOnSave sample_lp_active = True"
    and md: "shiftHandlingMode sample_lp_active = 0"
    by (simp_all add: sample_lp_active_def)
  note t = HandleGlobalShift_active_shift[where lp = sample_lp_active
      and S = "(- 1000, - 2000, - 3000)" and sz = 4 and Handle = Handle_reusing
      and P = "(1005, 2006, 3007)" and Pshift = "(0, 0, 0)" and preserve = False
      and useInput = False, OF en sh]
  from t keep first show ?thesis
    by (simp add: pr md)
qed

text \<open>
  The claim as it is written has the stored shift reported whatever the decision
  procedure does. With a decision procedure that writes a fresh shift into its in/out
  argument, the second call reports, and stores, a shift that is not the stored one.
\<close>

theorem HandleGlobalShift_active_shift_counterexample:
  "shift_loadParameters
     (HandleGlobalShift 4 Handle_recomputing (1000, 2000, 3000) (0, 0, 0) False sample_lp False)
     = sample_lp_active \<and>
   shiftAlreadyEnabled sample_lp_active \<and>
   coordinatesShift sample_lp_active = Some (- 1000, - 2000, - 3000) \<and>
   Pshift_out (HandleGlobalShift 4 Handle_recomputing (1005, 2006, 3007) (0, 0, 0) False
      sample_lp_active False) = (- 1005, - 2006, - 3007) \<and>
   coordinatesShift (shift_loadParameters
      (HandleGlobalShift 4 Handle_recomputing (1005, 2006, 3007) (0, 0, 0) False
         sample_lp_active False)) = Some (- 1005, - 2006, - 3007) \<and>
   (- 1005, - 2006, - 3007) \<noteq> (- 1000 :: real, - 2000 :: real, - 3000 :: real)"
  by (simp add: HandleGlobalShift_def shiftAlreadyEnabled_def sample_lp_def
      sample_lp_active_def Handle_recomputing_def Let_def)

end
